theory Spec2Isabelle
  imports Main
begin

section \<open>Python values and exceptions\<close>

text \<open>
  The connector is a Python program. Its exceptions are modelled as values: a function
  that may raise returns \<open>pyerr + 'a\<close>, with \<open>Inl\<close> for the exception.
  \<open>NameError\<close> and \<open>AttributeError\<close> are raised by the interpreter on the
  connector's own code; \<open>ExternalError\<close> stands for any exception raised inside a
  collaborator (git through subprocess, the file system, the JSON decoder, stix2, pycti).
  All of them are subclasses of Python's \<open>Exception\<close>.
\<close>

datatype pyerr = NameError string | AttributeError string | ExternalError string

text \<open>
  What \<open>json.load\<close> can return. A float is kept as mantissa and binary exponent (or
  infinity, or not-a-number, both of which Python's decoder accepts); the connector only
  ever tests a value for truth and passes it on. A dict is an association list read with
  \<open>map_of\<close>. \<open>JNull\<close> is Python's \<open>None\<close>.
\<close>

datatype pyfloat = Finite int int | Infinite bool | NotANumber

datatype json =
    JNull
  | JBool bool
  | JInt int
  | JFloat pyfloat
  | JStr string
  | JArr "json list"
  | JObj "(string \<times> json) list"

text \<open>Python's truth value of an object, as used by \<open>not x\<close>, \<open>x or y\<close> and \<open>x and y\<close>.\<close>

fun truthy :: "json \<Rightarrow> bool" where
  "truthy JNull = False"
| "truthy (JBool b) = b"
| "truthy (JInt n) = (n \<noteq> 0)"
| "truthy (JFloat f) = (case f of Finite m e \<Rightarrow> m \<noteq> 0 | _ \<Rightarrow> True)"
| "truthy (JStr s) = (s \<noteq> [])"
| "truthy (JArr xs) = (xs \<noteq> [])"
| "truthy (JObj kvs) = (kvs \<noteq> [])"

text \<open>
  \<open>x.get(k, d)\<close>: a dict answers with the value under \<open>k\<close> or with the default; any
  other JSON value has no attribute \<open>get\<close>.
\<close>

fun dict_get :: "json \<Rightarrow> string \<Rightarrow> json \<Rightarrow> pyerr + json" where
  "dict_get (JObj kvs) k d = Inr (case map_of kvs k of Some v \<Rightarrow> v | None \<Rightarrow> d)"
| "dict_get v k d = Inl (AttributeError ''get'')"

text \<open>\<open>s.endswith(suffix)\<close> and \<open>s.replace(a, b)\<close> for one-character \<open>a\<close> and \<open>b\<close>.\<close>

definition endswith :: "string \<Rightarrow> string \<Rightarrow> bool" where
  "endswith s suf = (length suf \<le> length s \<and> drop (length s - length suf) s = suf)"

definition replace_char :: "char \<Rightarrow> char \<Rightarrow> string \<Rightarrow> string" where
  "replace_char a b s = map (\<lambda>c. if c = a then b else c) s"

text \<open>\<open>os.path.join\<close> of two components on a POSIX system.\<close>

definition path_join :: "string \<Rightarrow> string \<Rightarrow> string" where
  "path_join a b =
     (if b \<noteq> [] \<and> hd b = CHR ''/'' then b
      else if a = [] \<or> last a = CHR ''/'' then a @ b
      else a @ ''/'' @ b)"

section \<open>STIX objects and the libraries that build them\<close>

definition TLP_CLEAR_ID :: string where
  "TLP_CLEAR_ID = ''marking-definition--613f2e26-407d-48c7-9eca-b8e91df99dc9''"

record file_obj =
  file_id :: string
  file_name :: json
  file_hashes :: "(string \<times> json) list"
  file_x_opencti_description :: json
  file_object_marking_refs :: "string list"

record external_reference =
  ref_source_name :: string
  ref_url :: string

record indicator_obj =
  ind_id :: string
  ind_name :: string
  ind_description :: json
  ind_pattern :: string
  ind_pattern_type :: string
  ind_external_references :: "external_reference list"
  ind_object_marking_refs :: "string list"
  ind_x_opencti_main_observable_type :: string
  ind_x_opencti_score :: int

record relationship_obj =
  rel_id :: string
  rel_relationship_type :: string
  rel_source_ref :: string
  rel_target_ref :: string
  rel_object_marking_refs :: "string list"

datatype stix_object =
    FileSCO file_obj
  | IndicatorSDO indicator_obj
  | RelationshipSRO relationship_obj

text \<open>
  stix2 and pycti are not part of the repository; what the connector uses of them is a
  parameter of the model:
  \<^item> \<open>str_of\<close>: Python's \<open>str()\<close> of a value that is not a string, as an f-string
    applies it;
  \<^item> \<open>stix2_File_id\<close>: the identifier stix2 gives a File built without an explicit one,
    as a function of the arguments of the constructor;
  \<^item> \<open>Indicator_generate_id\<close>, \<open>StixCoreRelationship_generate_id\<close>: pycti's
    generators;
  \<^item> \<open>stix2_*_check\<close>: the validation a stix2 constructor runs on its arguments,
    \<open>Some e\<close> when it raises \<open>e\<close>.
\<close>

record lib =
  str_of :: "json \<Rightarrow> string"
  stix2_File_id :: "json \<Rightarrow> (string \<times> json) list \<Rightarrow> json \<Rightarrow> string list \<Rightarrow> string"
  Indicator_generate_id :: "string \<Rightarrow> string"
  StixCoreRelationship_generate_id :: "string \<Rightarrow> string \<Rightarrow> string \<Rightarrow> string"
  stix2_File_check :: "file_obj \<Rightarrow> pyerr option"
  stix2_ExternalReference_check :: "external_reference \<Rightarrow> pyerr option"
  stix2_Indicator_check :: "indicator_obj \<Rightarrow> pyerr option"
  stix2_Relationship_check :: "relationship_obj \<Rightarrow> pyerr option"

text \<open>\<open>f"{v}"\<close>: a string is inserted as it is, any other value through \<open>str()\<close>.\<close>

definition fmt :: "lib \<Rightarrow> json \<Rightarrow> string" where
  "fmt L v = (case v of JStr s \<Rightarrow> s | _ \<Rightarrow> str_of L v)"

text \<open>A stix2 constructor: the object, unless validation raises.\<close>

definition construct :: "('a \<Rightarrow> pyerr option) \<Rightarrow> 'a \<Rightarrow> pyerr + 'a" where
  "construct check obj = (case check obj of Some e \<Rightarrow> Inl e | None \<Rightarrow> Inr obj)"

text \<open>The pattern \<open>f"[file:hashes.'SHA-256' = '{sha256}']"\<close>.\<close>

definition sha256_pattern :: "lib \<Rightarrow> json \<Rightarrow> string" where
  "sha256_pattern L sha256 =
     ''[file:hashes.'' @ [CHR 0x27] @ ''SHA-256'' @ [CHR 0x27] @ '' = '' @ [CHR 0x27]
       @ fmt L sha256 @ [CHR 0x27] @ '']''"

section \<open>Building the objects of one record\<close>

text \<open>
  Sequencing of statements that may raise: the first exception ends the computation.
\<close>

definition then_do :: "pyerr + 'a \<Rightarrow> ('a \<Rightarrow> pyerr + 'b) \<Rightarrow> pyerr + 'b" where
  "then_do m f = (case m of Inl e \<Rightarrow> Inl e | Inr v \<Rightarrow> f v)"

text \<open>
  \<open>origins[0].get("sha256")\<close> under the guard \<open>isinstance(origins, list) and origins\<close>;
  \<open>sha256\<close> stays \<open>None\<close> when the guard fails.
\<close>

definition first_origin_sha256 :: "json \<Rightarrow> pyerr + json" where
  "first_origin_sha256 origins =
     (case origins of
        JArr (first # rest) \<Rightarrow> dict_get first ''sha256'' JNull
      | _ \<Rightarrow> Inr JNull)"

text \<open>
  The statements of \<open>_create_objects_for_entry\<close> under "Get SHA-256 from
  database_specific": the value left in \<open>sha256\<close>.
\<close>

definition read_sha256 :: "json \<Rightarrow> pyerr + json" where
  "read_sha256 osv_data =
    then_do (dict_get osv_data ''database_specific'' (JObj [])) (\<lambda>db_spec.
    then_do (dict_get db_spec ''malicious-packages-origins'' JNull) (\<lambda>o1.
    then_do (if truthy o1 then Inr o1
             else dict_get db_spec
                    (replace_char CHR ''_'' CHR ''-'' ''malicious-packages-origins'') JNull)
      (\<lambda>origins.
    first_origin_sha256 origins)))"

text \<open>
  The second half of \<open>_create_objects_for_entry\<close>, from "Build the pattern once" on:
  the three objects of a record whose id and hash passed the checks. The arguments are
  \<open>self.default_score\<close>, \<open>osv_id\<close>, \<open>summary\<close>, \<open>sha256\<close> and \<open>source_url\<close>.
\<close>

definition build_triple ::
  "lib \<Rightarrow> int \<Rightarrow> json \<Rightarrow> json \<Rightarrow> json \<Rightarrow> string \<Rightarrow> pyerr + stix_object list" where
  "build_triple L score osv_id summary sha256 source_url =
    (let pattern = sha256_pattern L sha256;
         hashes = [(''SHA-256'', sha256)]
     in
     then_do (construct (stix2_File_check L)
                \<lparr> file_id = stix2_File_id L osv_id hashes summary [TLP_CLEAR_ID],
                  file_name = osv_id,
                  file_hashes = hashes,
                  file_x_opencti_description = summary,
                  file_object_marking_refs = [TLP_CLEAR_ID] \<rparr>) (\<lambda>file_sco.
     then_do (construct (stix2_ExternalReference_check L)
                \<lparr> ref_source_name = ''ossf-malicious-packages'',
                  ref_url = source_url \<rparr>) (\<lambda>ext_ref.
     then_do (construct (stix2_Indicator_check L)
                \<lparr> ind_id = Indicator_generate_id L pattern,
                  ind_name = ''Malicious package '' @ fmt L osv_id,
                  ind_description = summary,
                  ind_pattern = sha256_pattern L sha256,
                  ind_pattern_type = ''stix'',
                  ind_external_references = [ext_ref],
                  ind_object_marking_refs = [TLP_CLEAR_ID],
                  ind_x_opencti_main_observable_type = ''File'',
                  ind_x_opencti_score = score \<rparr>) (\<lambda>indicator.
     let relationship_type = ''based-on'';
         source_ref = ind_id indicator;
         target_ref = file_id file_sco
     in
     then_do (construct (stix2_Relationship_check L)
                \<lparr> rel_id = StixCoreRelationship_generate_id L
                             relationship_type source_ref target_ref,
                  rel_relationship_type = relationship_type,
                  rel_source_ref = source_ref,
                  rel_target_ref = target_ref,
                  rel_object_marking_refs = [TLP_CLEAR_ID] \<rparr>) (\<lambda>relation.
     Inr ([] @ [FileSCO file_sco, IndicatorSDO indicator, RelationshipSRO relation]))))))"

text \<open>
  \<open>_create_objects_for_entry\<close>, statement by statement: the reads and the two early
  returns, then the construction above.
\<close>

definition create_objects_for_entry ::
  "lib \<Rightarrow> int \<Rightarrow> json \<Rightarrow> string \<Rightarrow> pyerr + stix_object list" where
  "create_objects_for_entry L score osv_data source_url =
    then_do (dict_get osv_data ''id'' JNull) (\<lambda>osv_id.
    then_do (dict_get osv_data ''summary'' JNull) (\<lambda>s1.
    then_do (if truthy s1 then Inr s1 else dict_get osv_data ''details'' JNull) (\<lambda>s2.
    let summary = (if truthy s2 then s2 else JStr ''Malicious package'') in
    if \<not> truthy osv_id then Inr []
    else
    then_do (read_sha256 osv_data) (\<lambda>sha256.
    if \<not> truthy sha256 then Inr []
    else build_triple L score osv_id summary sha256 source_url))))"

section \<open>The collaborators of a run\<close>

text \<open>
  A directory tree, and \<open>os.walk\<close> on it (top-down, symbolic links aside): the
  directory itself with the names of its subdirectories and of its files, then each
  subdirectory in turn.
\<close>

datatype fsnode = FileNode string | DirNode string "fsnode list"

fun dirnames :: "fsnode list \<Rightarrow> string list" where
  "dirnames [] = []"
| "dirnames (DirNode n sub # es) = n # dirnames es"
| "dirnames (FileNode n # es) = dirnames es"

fun filenames :: "fsnode list \<Rightarrow> string list" where
  "filenames [] = []"
| "filenames (FileNode n # es) = n # filenames es"
| "filenames (DirNode n sub # es) = filenames es"

fun os_walk :: "string \<Rightarrow> fsnode list \<Rightarrow> (string \<times> string list \<times> string list) list"
  and walk_into :: "string \<Rightarrow> fsnode list \<Rightarrow> (string \<times> string list \<times> string list) list"
where
  "os_walk dir entries = (dir, dirnames entries, filenames entries) # walk_into dir entries"
| "walk_into dir [] = []"
| "walk_into dir (FileNode n # es) = walk_into dir es"
| "walk_into dir (DirNode n sub # es) = os_walk (path_join dir n) sub @ walk_into dir es"

text \<open>
  One entry of a difference between two revisions as git computes it, with paths relative
  to the root of the repository. A rename or a copy that git detects is one entry with
  the old and the new path.
\<close>

datatype diff_entry =
    Added string
  | Modified string
  | Deleted string
  | TypeChanged string
  | Renamed string string
  | Copied string string

text \<open>
  Configuration, and everything a run reads from outside the connector:
  \<^item> \<open>init_or_update_repo\<close>, \<open>get_current_head\<close>: the git plumbing of
    \<open>_init_or_update_repo\<close> and \<open>_get_current_head\<close>, by its result;
  \<^item> \<open>git_diff\<close>: the entries of \<open>git diff REVISIONS -- PATHSPEC\<close>, that is the
    difference between the two revisions of a range \<open>A..B\<close> limited to the pathspec, or
    the failure of git on that range;
  \<^item> \<open>git_c_escape\<close>: the escaped form git prints, between double quotes, for a
    path that it quotes;
  \<^item> \<open>tree_at\<close>: the directory tree found at a path, \<open>None\<close> where there is no
    directory;
  \<^item> \<open>load_json\<close>: \<open>open\<close> and \<open>json.load\<close> on a path;
  \<^item> \<open>relpath\<close>: \<open>os.path.relpath\<close>;
  \<^item> \<open>stix2_create_bundle\<close>, \<open>send_stix2_bundle\<close>: the helper's serialiser and its
    send call; the send call may answer differently from one call to the next, so it is
    given the number of bundles already sent;
  \<^item> \<open>utc_now_isoformat\<close>: \<open>datetime.now(timezone.utc).isoformat()\<close> at the end
    of the run.
  Logging and the work-tracking calls of the helper change nothing a run computes and
  are left out.
\<close>

record env =
  pylib :: lib
  github_repo_url :: string
  local_repo_path :: string
  default_score :: int
  init_or_update_repo :: "pyerr option"
  get_current_head :: "pyerr + string"
  git_diff :: "string \<Rightarrow> string \<Rightarrow> pyerr + diff_entry list"
  git_c_escape :: "string \<Rightarrow> string"
  tree_at :: "string \<Rightarrow> fsnode list option"
  load_json :: "string \<Rightarrow> pyerr + json"
  relpath :: "string \<Rightarrow> string \<Rightarrow> string"
  stix2_create_bundle :: "stix_object list \<Rightarrow> pyerr + string"
  send_stix2_bundle :: "nat \<Rightarrow> string \<Rightarrow> pyerr option"
  utc_now_isoformat :: string

text \<open>
  What a run changes: the connector state kept by the helper (\<open>None\<close> before the first
  \<open>set_state\<close>), and the bundles handed to the sink so far.
\<close>

record connector =
  state :: "(string \<times> string) list option"
  sent :: "string list"

section \<open>Resolving the changed files\<close>

text \<open>\<open>os.walk(dir)\<close>: nothing when there is no such directory.\<close>

definition walk :: "env \<Rightarrow> string \<Rightarrow> (string \<times> string list \<times> string list) list" where
  "walk E dir = (case tree_at E dir of None \<Rightarrow> [] | Some entries \<Rightarrow> os_walk dir entries)"

text \<open>
  \<open>git diff --name-only REVISIONS -- PATHSPEC\<close>, decoded and split into lines. The
  command is given no \<open>--diff-filter\<close>, so every entry prints one line, whatever
  happened to the path: the path of the entry, and for a rename or a copy the new path
  only. With the default \<open>core.quotePath\<close> git prints a path between double quotes, with
  escapes, when it holds a control character, a double quote, a backslash or a byte
  from 127 on; any other path is printed as it is.
\<close>

fun name_only_path :: "diff_entry \<Rightarrow> string" where
  "name_only_path (Added p) = p"
| "name_only_path (Modified p) = p"
| "name_only_path (Deleted p) = p"
| "name_only_path (TypeChanged p) = p"
| "name_only_path (Renamed old new) = new"
| "name_only_path (Copied src dst) = dst"

definition git_quotes :: "string \<Rightarrow> bool" where
  "git_quotes p =
     list_ex (\<lambda>c. (of_char c :: nat) < 32 \<or> 127 \<le> (of_char c :: nat)
                   \<or> c = CHR 0x22 \<or> c = CHR 0x5C) p"

definition name_only_line :: "env \<Rightarrow> diff_entry \<Rightarrow> string" where
  "name_only_line E entry =
     (let p = name_only_path entry
      in if git_quotes p then [CHR 0x22] @ git_c_escape E p @ [CHR 0x22] else p)"

definition git_diff_name_only :: "env \<Rightarrow> string \<Rightarrow> string \<Rightarrow> pyerr + string list" where
  "git_diff_name_only E revisions pathspec =
     then_do (git_diff E revisions pathspec)
       (\<lambda>entries. Inr (map (name_only_line E) entries))"

text \<open>\<open>os.path.join(self.local_repo_path, "osv", "malicious")\<close>.\<close>

definition malicious_dir :: "env \<Rightarrow> string" where
  "malicious_dir E = path_join (path_join (local_repo_path E) ''osv'') ''malicious''"

text \<open>\<open>_get_changed_files\<close>.\<close>

definition get_changed_files :: "env \<Rightarrow> string option \<Rightarrow> string \<Rightarrow> pyerr + string list" where
  "get_changed_files E old_commit new_commit =
     (case old_commit of
        None \<Rightarrow>
          Inr [path_join root f.
                 (root, dirs, files) \<leftarrow> walk E (malicious_dir E),
                 f \<leftarrow> files, endswith f ''.json'']
      | Some old \<Rightarrow>
          then_do (git_diff_name_only E (old @ ''..'' @ new_commit) ''osv/malicious'')
            (\<lambda>output. Inr [path_join (local_repo_path E) p.
                              p \<leftarrow> output, endswith p ''.json'']))"

section \<open>Parsing and collecting\<close>

text \<open>\<open>_parse_osv_json\<close>: the decoded value, \<open>None\<close> on any exception.\<close>

definition parse_osv_json :: "env \<Rightarrow> string \<Rightarrow> json" where
  "parse_osv_json E file_path =
     (case load_json E file_path of Inl e \<Rightarrow> JNull | Inr v \<Rightarrow> v)"

text \<open>\<open>_build_github_blob_url\<close>.\<close>

definition build_github_blob_url :: "env \<Rightarrow> string \<Rightarrow> string \<Rightarrow> string" where
  "build_github_blob_url E file_path commit =
     (let repo_http = github_repo_url E;
          repo_http = (if endswith repo_http ''.git''
                       then take (length repo_http - 4) repo_http else repo_http);
          rel_path = relpath E file_path (local_repo_path E)
      in repo_http @ ''/blob/'' @ commit @ ''/'' @ rel_path)"

text \<open>
  The loop of step 4 of \<open>_process_once\<close> over the changed files, with \<open>all_objects\<close>
  as accumulator. An exception of \<open>_create_objects_for_entry\<close> is not caught here.
\<close>

fun collect_objects ::
  "env \<Rightarrow> string \<Rightarrow> string list \<Rightarrow> stix_object list \<Rightarrow> pyerr + stix_object list" where
  "collect_objects E current_head [] all_objects = Inr all_objects"
| "collect_objects E current_head (file_path # rest) all_objects =
     (let parsed = parse_osv_json E file_path in
      if \<not> truthy parsed then collect_objects E current_head rest all_objects
      else
        let github_url = build_github_blob_url E file_path current_head in
        case create_objects_for_entry (pylib E) (default_score E) parsed github_url of
          Inl e \<Rightarrow> Inl e
        | Inr objs \<Rightarrow>
            if objs = [] then collect_objects E current_head rest all_objects
            else collect_objects E current_head rest (all_objects @ objs))"

section \<open>Dispatch and checkpoint\<close>

definition CHUNK_SIZE :: nat where
  "CHUNK_SIZE = 5000"

text \<open>\<open>range(start, stop, step)\<close> for a positive step.\<close>

definition py_range :: "nat \<Rightarrow> nat \<Rightarrow> nat \<Rightarrow> nat list" where
  "py_range start stop step =
     map (\<lambda>k. start + k * step) [0 ..< (stop - start + step - 1) div step]"

text \<open>
  Reading a name: the value bound to it, or \<open>NameError\<close>. The scope given to it holds
  the lists of objects a statement of \<open>_process_once\<close> can see; the names of the module
  and the builtins are bound to other things, and none of them is spelled like the name
  read in the loop below.
\<close>

definition load_name :: "(string \<times> 'a) list \<Rightarrow> string \<Rightarrow> pyerr + 'a" where
  "load_name scope n = (case map_of scope n of Some v \<Rightarrow> Inr v | None \<Rightarrow> Inl (NameError n))"

text \<open>
  The two calls that end an iteration of the loop of step 5, once the argument of
  \<open>stix2_create_bundle\<close> has a value: the bundle is serialised and handed to the sink.
  The result is the exception raised, if any, and the bundles sent so far.
\<close>

definition send_bundle ::
  "env \<Rightarrow> stix_object list \<Rightarrow> string list \<Rightarrow> pyerr option \<times> string list" where
  "send_bundle E objects sent_so_far =
     (case stix2_create_bundle E objects of
        Inl e \<Rightarrow> (Some e, sent_so_far)
      | Inr bundle_str \<Rightarrow>
          (case send_stix2_bundle E (length sent_so_far) bundle_str of
             Some e \<Rightarrow> (Some e, sent_so_far)
           | None \<Rightarrow> (None, sent_so_far @ [bundle_str])))"

text \<open>
  The body of the \<open>try\<close> of step 5: one iteration for each \<open>i\<close> of
  \<open>range(0, total, CHUNK_SIZE)\<close>. The source binds the slice to \<open>chunk\<close> and passes
  \<open>chunck\<close> to \<open>stix2_create_bundle\<close>. The first exception ends the loop.
\<close>

fun send_chunks ::
  "env \<Rightarrow> stix_object list \<Rightarrow> nat list \<Rightarrow> string list \<Rightarrow> pyerr option \<times> string list" where
  "send_chunks E all_objects [] sent_so_far = (None, sent_so_far)"
| "send_chunks E all_objects (i # rest) sent_so_far =
     (let chunk = take CHUNK_SIZE (drop i all_objects) in
      case load_name [(''all_objects'', all_objects), (''chunk'', chunk)] ''chunck'' of
        Inl e \<Rightarrow> (Some e, sent_so_far)
      | Inr argument \<Rightarrow>
          (case send_bundle E argument sent_so_far of
             (Some e, sent_now) \<Rightarrow> (Some e, sent_now)
           | (None, sent_now) \<Rightarrow> send_chunks E all_objects rest sent_now))"

text \<open>
  How a run ends: it completes and writes the state; or the \<open>try\<close> of step 5 catches an
  exception and the run returns early; or an exception leaves \<open>_process_once\<close>.
\<close>

datatype outcome = Completed | DispatchFailed pyerr | Raised pyerr

text \<open>
  What follows the body of the \<open>try\<close>: the \<open>except\<close> clause, which returns without
  touching the state, and otherwise step 6, which writes it. The argument is what the
  body of the \<open>try\<close> left: the exception it raised, if any, and the bundles sent.
\<close>

definition except_or_checkpoint ::
  "env \<Rightarrow> connector \<Rightarrow> string \<Rightarrow> pyerr option \<times> string list \<Rightarrow> outcome \<times> connector" where
  "except_or_checkpoint E c current_head tried =
     (case tried of
        (Some e, sent_now) \<Rightarrow> (DispatchFailed e, c\<lparr>sent := sent_now\<rparr>)
      | (None, sent_now) \<Rightarrow>
          (let new_state = [(''last_commit'', current_head),
                            (''last_run'', utc_now_isoformat E)]
           in (Completed, \<lparr>state = Some new_state, sent = sent_now\<rparr>)))"

text \<open>
  Steps 5 and 6 of \<open>_process_once\<close>, from the accumulated objects on. With nothing to
  send the \<open>try\<close> is not entered.
\<close>

definition dispatch_and_checkpoint ::
  "env \<Rightarrow> connector \<Rightarrow> string \<Rightarrow> stix_object list \<Rightarrow> outcome \<times> connector" where
  "dispatch_and_checkpoint E c current_head all_objects =
     except_or_checkpoint E c current_head
       (if all_objects = [] then (None, sent c)
        else let total = length all_objects
             in send_chunks E all_objects (py_range 0 total CHUNK_SIZE) (sent c))"

text \<open>\<open>_process_once\<close>.\<close>

definition process_once :: "env \<Rightarrow> connector \<Rightarrow> outcome \<times> connector" where
  "process_once E c =
     (case init_or_update_repo E of
        Some e \<Rightarrow> (Raised e, c)
      | None \<Rightarrow>
     (case get_current_head E of
        Inl e \<Rightarrow> (Raised e, c)
      | Inr current_head \<Rightarrow>
     (let state_dict = (case state c of None \<Rightarrow> [] | Some d \<Rightarrow> if d = [] then [] else d);
          last_commit = map_of state_dict ''last_commit''
      in
      case get_changed_files E last_commit current_head of
        Inl e \<Rightarrow> (Raised e, c)
      | Inr changed_files \<Rightarrow>
     (case collect_objects E current_head changed_files [] of
        Inl e \<Rightarrow> (Raised e, c)
      | Inr all_objects \<Rightarrow> dispatch_and_checkpoint E c current_head all_objects))))"

section \<open>Notions used in the statements\<close>

text \<open>\<open>d.get(k)\<close> on the entries of a dict: \<open>None\<close> for a missing key.\<close>

definition field :: "(string \<times> json) list \<Rightarrow> string \<Rightarrow> json" where
  "field kvs k = (case map_of kvs k of Some v \<Rightarrow> v | None \<Rightarrow> JNull)"

text \<open>
  The summary of a record: \<open>d.get("summary") or d.get("details") or "Malicious package"\<close>
  on the entries of the dict.
\<close>

definition summary_of :: "(string \<times> json) list \<Rightarrow> json" where
  "summary_of kvs =
     (if truthy (field kvs ''summary'') then field kvs ''summary''
      else if truthy (field kvs ''details'') then field kvs ''details''
      else JStr ''Malicious package'')"

text \<open>
  Every file beneath a directory, at any depth, as the directory that holds it and its
  name. This is the specification's "every record path under the subtree, recursively",
  written entry by entry: a path is a directory, a slash and a name.
\<close>

fun files_beneath :: "string \<Rightarrow> fsnode list \<Rightarrow> (string \<times> string) list" where
  "files_beneath dir [] = []"
| "files_beneath dir (FileNode n # es) = (dir, n) # files_beneath dir es"
| "files_beneath dir (DirNode n sub # es) =
     files_beneath (dir @ ''/'' @ n) sub @ files_beneath dir es"

text \<open>The names in a directory tree: not empty, and without a slash.\<close>

definition proper_name :: "string \<Rightarrow> bool" where
  "proper_name n = (n \<noteq> [] \<and> CHR ''/'' \<notin> set n)"

fun proper_tree :: "fsnode list \<Rightarrow> bool" where
  "proper_tree [] = True"
| "proper_tree (FileNode n # es) = (proper_name n \<and> proper_tree es)"
| "proper_tree (DirNode n sub # es) = (proper_name n \<and> proper_tree sub \<and> proper_tree es)"

section \<open>A small feed\<close>

text \<open>
  Stand-ins for the libraries: identifiers that spell out what they were generated
  from, and constructors that accept everything.
\<close>

definition example_lib :: lib where
  "example_lib =
     \<lparr> str_of = (\<lambda>v. ''?''),
       stix2_File_id = (\<lambda>name hashes description markings.
                          ''file--'' @ (case name of JStr s \<Rightarrow> s | _ \<Rightarrow> ''?'')),
       Indicator_generate_id = (\<lambda>pattern. ''indicator--'' @ pattern),
       StixCoreRelationship_generate_id =
         (\<lambda>kind src tgt. ''relationship--'' @ kind @ ''/'' @ src @ ''/'' @ tgt),
       stix2_File_check = (\<lambda>x. None),
       stix2_ExternalReference_check = (\<lambda>x. None),
       stix2_Indicator_check = (\<lambda>x. None),
       stix2_Relationship_check = (\<lambda>x. None) \<rparr>"

definition record_MAL_1 :: json where
  "record_MAL_1 =
     JObj [(''id'', JStr ''MAL-1''), (''summary'', JStr ''bad pkg''),
           (''database_specific'',
              JObj [(''malicious-packages-origins'',
                       JArr [JObj [(''sha256'', JStr ''e3b0c44298fc1c149afbf4c8996fb92427ae41e4649b934ca495991b7852b855'')]])])]"

text \<open>A record whose first origin is a bare string instead of an object.\<close>

definition record_bad_origin :: json where
  "record_bad_origin =
     JObj [(''id'', JStr ''MAL-2''),
           (''database_specific'',
              JObj [(''malicious-packages-origins'', JArr [JStr ''e3b0c44298fc1c149afbf4c8996fb92427ae41e4649b934ca495991b7852b855''])])]"

text \<open>A record with an empty summary and a details text.\<close>

definition record_empty_summary :: json where
  "record_empty_summary =
     JObj [(''id'', JStr ''MAL-3''), (''summary'', JStr []),
           (''details'', JStr ''steals tokens''),
           (''database_specific'',
              JObj [(''malicious-packages-origins'',
                       JArr [JObj [(''sha256'', JStr ''e3b0c44298fc1c149afbf4c8996fb92427ae41e4649b934ca495991b7852b855'')]])])]"

text \<open>
  A checkout at \<open>/repo\<close> holding the record \<open>MAL-1\<close>; since the previous revision,
  \<open>MAL-1\<close> was modified and \<open>MAL-9\<close> was deleted.
\<close>

definition example_env :: env where
  "example_env =
     \<lparr> pylib = example_lib,
       github_repo_url = ''https://github.com/ossf/malicious-packages.git'',
       local_repo_path = ''/repo'',
       default_score = 80,
       init_or_update_repo = None,
       get_current_head = Inr ''c0ffee'',
       git_diff = (\<lambda>revisions pathspec.
          Inr [Modified ''osv/malicious/npm/MAL-1.json'',
               Deleted ''osv/malicious/npm/MAL-9.json'',
               Added ''osv/malicious/npm/notes.txt'']),
       git_c_escape = (\<lambda>p. ''?''),
       tree_at = (\<lambda>dir. if dir = ''/repo/osv/malicious''
                          then Some [DirNode ''npm'' [FileNode ''MAL-1.json'',
                                                     FileNode ''notes.txt'']]
                          else None),
       load_json = (\<lambda>p. if p = ''/repo/osv/malicious/npm/MAL-1.json'' then Inr record_MAL_1
                         else Inl (ExternalError ''FileNotFoundError'')),
       relpath = (\<lambda>p start. drop (length start + 1) p),
       stix2_create_bundle = (\<lambda>objs. Inr ''bundle''),
       send_stix2_bundle = (\<lambda>n b. None),
       utc_now_isoformat = ''2026-01-01T00:00:00+00:00'' \<rparr>"

text \<open>The same checkout after only the deletion of \<open>MAL-9\<close>.\<close>

definition quiet_env :: env where
  "quiet_env =
     example_env\<lparr> git_diff :=
                    (\<lambda>revisions pathspec. Inr [Deleted ''osv/malicious/npm/MAL-9.json'']) \<rparr>"

text \<open>The same checkout with a second record file, holding \<open>record_bad_origin\<close>.\<close>

definition poisoned_env :: env where
  "poisoned_env =
     example_env\<lparr>
       tree_at := (\<lambda>dir. if dir = ''/repo/osv/malicious''
                          then Some [DirNode ''npm'' [FileNode ''MAL-1.json'',
                                                     FileNode ''MAL-2.json'']]
                          else None),
       load_json := (\<lambda>p. if p = ''/repo/osv/malicious/npm/MAL-1.json'' then Inr record_MAL_1
                          else if p = ''/repo/osv/malicious/npm/MAL-2.json''
                          then Inr record_bad_origin
                          else Inl (ExternalError ''FileNotFoundError'')) \<rparr>"

text \<open>The same checkout with a sink that fails on the second bundle it is handed.\<close>

definition failing_sink_env :: env where
  "failing_sink_env =
     example_env\<lparr> send_stix2_bundle :=
                    (\<lambda>n b. if n = 1 then Some (ExternalError ''send failed'') else None) \<rparr>"

text \<open>A record whose \<open>database_specific\<close> is \<open>null\<close>.\<close>

definition record_null_database_specific :: json where
  "record_null_database_specific =
     JObj [(''id'', JStr ''MAL-4''), (''database_specific'', JNull)]"

text \<open>The objects of \<open>MAL-1\<close>, as a chunk to send.\<close>

definition example_chunk :: "stix_object list" where
  "example_chunk =
     (case create_objects_for_entry example_lib 80 record_MAL_1 ''u'' of
        Inr objs \<Rightarrow> objs
      | Inl e \<Rightarrow> [])"

definition first_run :: connector where
  "first_run = \<lparr> state = None, sent = [] \<rparr>"

definition later_run :: connector where
  "later_run = \<lparr> state = Some [(''last_commit'', ''badc0de''),
                                (''last_run'', ''2025-12-31T00:00:00+00:00'')],
                 sent = [] \<rparr>"

section \<open>Dispatch\<close>

lemma send_chunks_first_iteration:
  "send_chunks E all_objects (i # rest) sent_so_far =
     (Some (NameError ''chunck''), sent_so_far)"
  by (simp add: load_name_def)

lemma py_range_nonempty: "0 < n \<Longrightarrow> py_range 0 n CHUNK_SIZE \<noteq> []"
  by (simp add: py_range_def CHUNK_SIZE_def)

lemma except_keeps_state:
  "except_or_checkpoint E c h (Some e, sent_now) = (DispatchFailed e, c\<lparr>sent := sent_now\<rparr>)"
  by (simp add: except_or_checkpoint_def)

lemma dispatch_failure_keeps_state:
  "fst (dispatch_and_checkpoint E c h objs) = DispatchFailed e \<Longrightarrow>
   state (snd (dispatch_and_checkpoint E c h objs)) = state c"
  by (auto simp: dispatch_and_checkpoint_def except_or_checkpoint_def Let_def
           split: prod.splits option.splits if_splits)

text \<open>Every run that has objects to send ends in the first iteration of the loop.\<close>

lemma dispatch_fails_on_objects:
  "all_objects \<noteq> [] \<Longrightarrow>
   dispatch_and_checkpoint E c current_head all_objects
     = (DispatchFailed (NameError ''chunck''), c)"
proof -
  assume a: "all_objects \<noteq> []"
  then have "py_range 0 (length all_objects) CHUNK_SIZE \<noteq> []"
    by (intro py_range_nonempty) simp
  then obtain i rest where r: "py_range 0 (length all_objects) CHUNK_SIZE = i # rest"
    by (cases "py_range 0 (length all_objects) CHUNK_SIZE") auto
  show ?thesis
    using a by (simp add: dispatch_and_checkpoint_def except_or_checkpoint_def r
                  send_chunks_first_iteration Let_def del: send_chunks.simps)
qed

text \<open>
  Claim C1 (the dispatch step issues \<open>ceil(L/C)\<close> sends of at most \<open>C = 5000\<close>
  objects each, in order) does not hold of the code. On the first run over the small
  feed the three objects of \<open>MAL-1\<close> are accumulated, so one send of three objects is
  due; the loop reads the unbound name \<open>chunck\<close> in its first iteration, the
  \<open>NameError\<close> is caught by the \<open>except\<close> of step 5, and the run ends with nothing
  sent.
\<close>

theorem dispatch_sends_nothing:
  "map_sum id length
     (collect_objects example_env ''c0ffee'' [''/repo/osv/malicious/npm/MAL-1.json''] []) = Inr 3
   \<and> process_once example_env first_run = (DispatchFailed (NameError ''chunck''), first_run)
   \<and> sent (snd (process_once example_env first_run)) = []"
  by code_simp

text \<open>
  Claim C2: when a send call of the sink raises on a chunk, the run ends without writing
  the connector state. The send call stands inside the \<open>try\<close> of step 5. First, for any
  chunk and any number of bundles already sent: when the bundle is built and the send
  call then raises \<open>e\<close>, the body of the \<open>try\<close> ends there with \<open>e\<close> and with nothing
  more sent, and what follows the \<open>try\<close> is the \<open>except\<close> clause: the run reports the
  failure and its state is the state it started with. Second, for whole runs: every run
  that ends in the \<open>except\<close> clause leaves the state as it was. In the code as it stands
  an iteration raises \<open>NameError\<close> before it reaches the send call, so the runs of the
  second part all fail that way.
\<close>

theorem no_checkpoint_on_dispatch_failure:
  "(stix2_create_bundle E chunk = Inr bundle_str
      \<and> send_stix2_bundle E (length sent_so_far) bundle_str = Some e \<longrightarrow>
        send_bundle E chunk sent_so_far = (Some e, sent_so_far)
      \<and> fst (except_or_checkpoint E c current_head (send_bundle E chunk sent_so_far))
          = DispatchFailed e
      \<and> state (snd (except_or_checkpoint E c current_head (send_bundle E chunk sent_so_far)))
          = state c)
   \<and> (fst (process_once E c) = DispatchFailed e' \<longrightarrow>
        state (snd (process_once E c)) = state c)"
proof (intro conjI impI)
  assume a: "stix2_create_bundle E chunk = Inr bundle_str
      \<and> send_stix2_bundle E (length sent_so_far) bundle_str = Some e"
  then show s: "send_bundle E chunk sent_so_far = (Some e, sent_so_far)"
    by (simp add: send_bundle_def)
  show "fst (except_or_checkpoint E c current_head (send_bundle E chunk sent_so_far))
          = DispatchFailed e"
    by (simp add: s except_keeps_state)
  show "state (snd (except_or_checkpoint E c current_head (send_bundle E chunk sent_so_far)))
          = state c"
    by (simp add: s except_keeps_state)
next
  assume "fst (process_once E c) = DispatchFailed e'"
  then show "state (snd (process_once E c)) = state c"
    by (auto simp: process_once_def Let_def dispatch_failure_keeps_state
             split: option.splits sum.splits)
qed

theorem no_checkpoint_on_dispatch_failure_witness:
  "send_bundle failing_sink_env example_chunk [''bundle''] = (Some (ExternalError ''send failed''), [''bundle''])
   \<and> fst (except_or_checkpoint failing_sink_env later_run ''c0ffee''
            (send_bundle failing_sink_env example_chunk [''bundle'']))
       = DispatchFailed (ExternalError ''send failed'')
   \<and> state (snd (except_or_checkpoint failing_sink_env later_run ''c0ffee''
                   (send_bundle failing_sink_env example_chunk [''bundle''])))
       = state later_run
   \<and> fst (process_once failing_sink_env later_run) = DispatchFailed (NameError ''chunck'')
   \<and> state (snd (process_once failing_sink_env later_run)) = state later_run"
proof -
  have a: "stix2_create_bundle failing_sink_env example_chunk = Inr ''bundle''
      \<and> send_stix2_bundle failing_sink_env (length [''bundle'']) ''bundle''
          = Some (ExternalError ''send failed'')"
    by (simp add: failing_sink_env_def example_env_def)
  have h: "fst (process_once failing_sink_env later_run) = DispatchFailed (NameError ''chunck'')"
    by code_simp
  from no_checkpoint_on_dispatch_failure
         [where E = failing_sink_env and chunk = example_chunk and bundle_str = "''bundle''"
            and sent_so_far = "[''bundle'']" and e = "ExternalError ''send failed''"
            and c = later_run and current_head = "''c0ffee''" and e' = "NameError ''chunck''"]
       a h
  show ?thesis by blast
qed

section \<open>Records that stop a run\<close>

text \<open>
  Claim C7 (no per-record input can abort the run) does not hold of the code. The first
  origin of \<open>MAL-2\<close> is a string; \<open>origins[0].get\<close> raises \<open>AttributeError\<close>, nothing
  between \<open>_create_objects_for_entry\<close> and the caller of \<open>_process_once\<close> catches
  it, and the run ends there: the objects of the well-formed \<open>MAL-1\<close> are dropped with
  it, and the state is not written.
\<close>

theorem malformed_origin_aborts_run:
  "get_changed_files poisoned_env None ''c0ffee'' =
     Inr [''/repo/osv/malicious/npm/MAL-1.json'', ''/repo/osv/malicious/npm/MAL-2.json'']
   \<and> create_objects_for_entry example_lib 80 record_bad_origin ''u'' = Inl (AttributeError ''get'')
   \<and> process_once poisoned_env first_run = (Raised (AttributeError ''get''), first_run)"
  by code_simp



section \<open>The object graph of a record\<close>

lemma then_do_Inr: "then_do (Inr v) F = F v"
  by (simp add: then_do_def)

lemma build_triple_shape:
  assumes "build_triple L score i s h url = Inr objs"
  shows "\<exists>f ind rl. objs = [FileSCO f, IndicatorSDO ind, RelationshipSRO rl]
           \<and> file_name f = i \<and> file_hashes f = [(''SHA-256'', h)]
           \<and> file_id f = stix2_File_id L i [(''SHA-256'', h)] s [TLP_CLEAR_ID]
           \<and> file_x_opencti_description f = s \<and> ind_description ind = s
           \<and> ind_pattern ind = sha256_pattern L h
           \<and> ind_id ind = Indicator_generate_id L (sha256_pattern L h)
           \<and> rel_relationship_type rl = ''based-on''
           \<and> rel_source_ref rl = ind_id ind \<and> rel_target_ref rl = file_id f
           \<and> rel_id rl = StixCoreRelationship_generate_id L ''based-on'' (ind_id ind) (file_id f)"
  using assms
  by (auto simp: build_triple_def then_do_def construct_def Let_def
           split: option.splits sum.splits)

lemma build_triple_accepted:
  assumes "\<forall>x. stix2_File_check L x = None" "\<forall>x. stix2_ExternalReference_check L x = None"
    "\<forall>x. stix2_Indicator_check L x = None" "\<forall>x. stix2_Relationship_check L x = None"
  shows "\<exists>f ind rl. build_triple L score i s h url = Inr [FileSCO f, IndicatorSDO ind, RelationshipSRO rl]"
  by (simp add: build_triple_def then_do_def construct_def Let_def assms)

lemma create_objects_not_dict:
  assumes "\<forall>kvs. r \<noteq> JObj kvs"
  shows "create_objects_for_entry L score r url = Inl (AttributeError ''get'')"
proof (cases r)
  case (JObj kvs)
  with assms show ?thesis by blast
qed (simp_all add: create_objects_for_entry_def then_do_def)

lemma create_objects_dict:
  "create_objects_for_entry L score (JObj kvs) url =
     (if \<not> truthy (field kvs ''id'') then Inr []
      else then_do (read_sha256 (JObj kvs)) (\<lambda>sha256.
             if \<not> truthy sha256 then Inr []
             else build_triple L score (field kvs ''id'') (summary_of kvs) sha256 url))"
proof -
  have d: "\<And>k. dict_get (JObj kvs) k JNull = Inr (field kvs k)"
    by (simp add: field_def)
  show ?thesis
    unfolding create_objects_for_entry_def d
    by (simp add: then_do_Inr summary_of_def Let_def cong: if_cong)
qed

lemma read_sha256_no_database_specific:
  "map_of kvs ''database_specific'' = None \<Longrightarrow> read_sha256 (JObj kvs) = Inr JNull"
  by (simp add: read_sha256_def then_do_def first_origin_sha256_def)

lemma read_sha256_database_specific:
  assumes "map_of kvs ''database_specific'' = Some (JObj d)"
  shows "read_sha256 (JObj kvs) = first_origin_sha256 (field d ''malicious-packages-origins'')"
proof -
  have k: "replace_char CHR ''_'' CHR ''-'' ''malicious-packages-origins'' = ''malicious-packages-origins''"
    by (simp add: replace_char_def)
  show ?thesis using assms
    by (simp add: read_sha256_def then_do_def k field_def)
qed

lemma first_origin_object:
  "first_origin_sha256 (JArr (JObj ob # rest)) = Inr (field ob ''sha256'')"
  by (simp add: first_origin_sha256_def field_def)

lemma first_origin_none:
  "\<forall>x rest. og \<noteq> JArr (x # rest) \<Longrightarrow> first_origin_sha256 og = Inr JNull"
  by (auto simp: first_origin_sha256_def split: json.splits list.splits)

lemma create_objects_returns:
  assumes "create_objects_for_entry L score r url = Inr objs" and "objs \<noteq> []"
  shows "\<exists>kvs h. r = JObj kvs \<and> truthy (field kvs ''id'') \<and> read_sha256 r = Inr h \<and> truthy h
           \<and> build_triple L score (field kvs ''id'') (summary_of kvs) h url = Inr objs"
proof (cases "\<exists>kvs. r = JObj kvs")
  case False
  then have "create_objects_for_entry L score r url = Inl (AttributeError ''get'')"
    by (intro create_objects_not_dict) blast
  with assms show ?thesis by simp
next
  case True
  then obtain kvs where r: "r = JObj kvs" by blast
  from assms show ?thesis
    unfolding r create_objects_dict
    by (auto simp: then_do_def split: if_splits sum.splits)
qed

text \<open>
  Records with the same hash get the same indicator identifier, whatever their ids; the
  id of a record is the name of its File.
\<close>

lemma same_hash_same_indicator_id:
  assumes "create_objects_for_entry L score r url = Inr [FileSCO f, IndicatorSDO i, rl]"
      and "create_objects_for_entry L score' r' url' = Inr [FileSCO f', IndicatorSDO i', rl']"
      and "read_sha256 r = read_sha256 r'"
  shows "ind_id i = ind_id i'
         \<and> dict_get r ''id'' JNull = Inr (file_name f)
         \<and> dict_get r' ''id'' JNull = Inr (file_name f')"
proof -
  from create_objects_returns [OF assms(1)] obtain kvs h where
    r: "r = JObj kvs" and h: "read_sha256 r = Inr h"
    and b1: "build_triple L score (field kvs ''id'') (summary_of kvs) h url
               = Inr [FileSCO f, IndicatorSDO i, rl]"
    by auto
  from create_objects_returns [OF assms(2)] obtain kvs' h' where
    r': "r' = JObj kvs'" and h': "read_sha256 r' = Inr h'"
    and b2: "build_triple L score' (field kvs' ''id'') (summary_of kvs') h' url'
               = Inr [FileSCO f', IndicatorSDO i', rl']"
    by auto
  from h h' assms(3) have e: "h' = h" by simp
  from build_triple_shape [OF b1] build_triple_shape [OF b2 [unfolded e]] r r'
  show ?thesis by (auto simp: field_def)
qed

lemma record_MAL_1_builds:
  "\<exists>f i rl. create_objects_for_entry example_lib score record_MAL_1 url
              = Inr [FileSCO f, IndicatorSDO i, RelationshipSRO rl]"
  by (simp add: record_MAL_1_def example_lib_def create_objects_for_entry_def read_sha256_def
        first_origin_sha256_def build_triple_def then_do_def construct_def Let_def
        replace_char_def)

lemma record_empty_summary_builds:
  "\<exists>f i rl. create_objects_for_entry example_lib score record_empty_summary url
              = Inr [FileSCO f, IndicatorSDO i, RelationshipSRO rl]"
  by (simp add: record_empty_summary_def example_lib_def create_objects_for_entry_def
        read_sha256_def first_origin_sha256_def build_triple_def then_do_def construct_def
        Let_def replace_char_def)

lemma build_triple_or_rejected:
  "(\<exists>f i rl. build_triple L score osv_id summary h url
               = Inr [FileSCO f, IndicatorSDO i, RelationshipSRO rl])
   \<or> (\<exists>e. build_triple L score osv_id summary h url = Inl e
          \<and> ((\<exists>x. stix2_File_check L x = Some e)
             \<or> (\<exists>x. stix2_ExternalReference_check L x = Some e)
             \<or> (\<exists>x. stix2_Indicator_check L x = Some e)
             \<or> (\<exists>x. stix2_Relationship_check L x = Some e)))"
  unfolding build_triple_def then_do_def construct_def Let_def
  by (auto split: option.splits sum.splits)

text \<open>
  What the builder does on a record that is a JSON object with a \<open>database_specific\<close>
  that is absent or an object and a first origin, if any, that is an object: it returns
  nothing or the three objects, never one or two, and it returns the three objects
  exactly when id and hash are true, unless a stix2 constructor raises.
\<close>

lemma builder_returns_nothing_or_triple:
  "(\<forall>objs. create_objects_for_entry L score r url = Inr objs \<longrightarrow>
       objs = [] \<or> (\<exists>f i rl. objs = [FileSCO f, IndicatorSDO i, RelationshipSRO rl]))
   \<and> (\<forall>kvs. r = JObj kvs \<and> \<not> truthy (field kvs ''id'') \<longrightarrow>
         create_objects_for_entry L score r url = Inr [])
   \<and> (\<forall>kvs. r = JObj kvs \<and> map_of kvs ''database_specific'' = None \<longrightarrow>
         create_objects_for_entry L score r url = Inr [])
   \<and> (\<forall>kvs d. r = JObj kvs \<and> map_of kvs ''database_specific'' = Some (JObj d)
         \<and> (\<forall>x rest. field d ''malicious-packages-origins'' \<noteq> JArr (x # rest)) \<longrightarrow>
         create_objects_for_entry L score r url = Inr [])
   \<and> (\<forall>kvs d ob rest. r = JObj kvs \<and> map_of kvs ''database_specific'' = Some (JObj d)
         \<and> field d ''malicious-packages-origins'' = JArr (JObj ob # rest)
         \<and> \<not> truthy (field ob ''sha256'') \<longrightarrow>
         create_objects_for_entry L score r url = Inr [])
   \<and> (\<forall>kvs d ob rest. r = JObj kvs \<and> truthy (field kvs ''id'')
         \<and> map_of kvs ''database_specific'' = Some (JObj d)
         \<and> field d ''malicious-packages-origins'' = JArr (JObj ob # rest)
         \<and> truthy (field ob ''sha256'') \<longrightarrow>
         create_objects_for_entry L score r url
           = build_triple L score (field kvs ''id'') (summary_of kvs) (field ob ''sha256'') url)"
proof (intro conjI allI impI)
  fix objs assume a: "create_objects_for_entry L score r url = Inr objs"
  show "objs = [] \<or> (\<exists>f i rl. objs = [FileSCO f, IndicatorSDO i, RelationshipSRO rl])"
  proof (cases "objs = []")
    case False
    from create_objects_returns [OF a False] obtain kvs h
      where "build_triple L score (field kvs ''id'') (summary_of kvs) h url = Inr objs" by blast
    from build_triple_shape [OF this] show ?thesis by blast
  qed simp
next
  fix kvs assume "r = JObj kvs \<and> \<not> truthy (field kvs ''id'')"
  then show "create_objects_for_entry L score r url = Inr []"
    by (simp add: create_objects_dict)
next
  fix kvs assume "r = JObj kvs \<and> map_of kvs ''database_specific'' = None"
  then show "create_objects_for_entry L score r url = Inr []"
    by (simp add: create_objects_dict read_sha256_no_database_specific then_do_def)
next
  fix kvs d
  assume "r = JObj kvs \<and> map_of kvs ''database_specific'' = Some (JObj d)
         \<and> (\<forall>x rest. field d ''malicious-packages-origins'' \<noteq> JArr (x # rest))"
  then show "create_objects_for_entry L score r url = Inr []"
    by (simp add: create_objects_dict read_sha256_database_specific first_origin_none then_do_def)
next
  fix kvs d ob rest
  assume "r = JObj kvs \<and> map_of kvs ''database_specific'' = Some (JObj d)
         \<and> field d ''malicious-packages-origins'' = JArr (JObj ob # rest)
         \<and> \<not> truthy (field ob ''sha256'')"
  then show "create_objects_for_entry L score r url = Inr []"
    by (simp add: create_objects_dict read_sha256_database_specific first_origin_object then_do_def)
next
  fix kvs d ob rest
  assume "r = JObj kvs \<and> truthy (field kvs ''id'')
         \<and> map_of kvs ''database_specific'' = Some (JObj d)
         \<and> field d ''malicious-packages-origins'' = JArr (JObj ob # rest)
         \<and> truthy (field ob ''sha256'')"
  then show "create_objects_for_entry L score r url =
       build_triple L score (field kvs ''id'') (summary_of kvs) (field ob ''sha256'') url"
    by (simp add: create_objects_dict read_sha256_database_specific first_origin_object then_do_def)
qed

text \<open>
  Claim C3: building the object graph of a record with hash \<open>H\<close> twice yields the same
  Indicator and Relationship identifiers. For a record whose first origin carries the
  string \<open>H\<close> as \<open>sha256\<close>, every build, whatever the provenance URL and the score,
  gives the indicator the pattern \<open>[file:hashes.'SHA-256' = 'H']\<close> and as identifier
  pycti's \<open>Indicator.generate_id\<close> of that pattern, and gives the relationship as
  identifier pycti's \<open>StixCoreRelationship.generate_id\<close> of \<open>based-on\<close>, the indicator
  identifier and the identifier of the observable built with it; so two builds of the
  record agree on both identifiers.
\<close>

theorem identifiers_stable:
  assumes "r = JObj kvs"
      and "map_of kvs ''database_specific'' = Some (JObj d)"
      and "map_of d ''malicious-packages-origins'' = Some (JArr (JObj ob # rest))"
      and "map_of ob ''sha256'' = Some (JStr H)"
      and "create_objects_for_entry L score r url = Inr [a, b, c]"
      and "create_objects_for_entry L score' r url' = Inr [a', b', c']"
  shows "\<exists>f i rl f' i' rl'.
           a = FileSCO f \<and> b = IndicatorSDO i \<and> c = RelationshipSRO rl
         \<and> a' = FileSCO f' \<and> b' = IndicatorSDO i' \<and> c' = RelationshipSRO rl'
         \<and> file_hashes f = [(''SHA-256'', JStr H)]
         \<and> ind_pattern i = ''[file:hashes.'' @ [CHR 0x27] @ ''SHA-256'' @ [CHR 0x27]
                              @ '' = '' @ [CHR 0x27] @ H @ [CHR 0x27] @ '']''
         \<and> ind_id i = Indicator_generate_id L
                         (''[file:hashes.'' @ [CHR 0x27] @ ''SHA-256'' @ [CHR 0x27]
                            @ '' = '' @ [CHR 0x27] @ H @ [CHR 0x27] @ '']'')
         \<and> rel_relationship_type rl = ''based-on''
         \<and> rel_source_ref rl = ind_id i \<and> rel_target_ref rl = file_id f
         \<and> rel_id rl = StixCoreRelationship_generate_id L ''based-on'' (ind_id i) (file_id f)
         \<and> ind_id i' = ind_id i \<and> rel_id rl' = rel_id rl"
proof -
  have "field d ''malicious-packages-origins'' = JArr (JObj ob # rest)"
    and "field ob ''sha256'' = JStr H"
    using assms(3,4) by (simp_all add: field_def)
  then have sha: "read_sha256 r = Inr (JStr H)"
    using assms(1,2) by (simp add: read_sha256_database_specific first_origin_object)
  have pat: "sha256_pattern L (JStr H)
               = ''[file:hashes.'' @ [CHR 0x27] @ ''SHA-256'' @ [CHR 0x27]
                   @ '' = '' @ [CHR 0x27] @ H @ [CHR 0x27] @ '']''"
    by (simp add: sha256_pattern_def fmt_def)
  from create_objects_returns [OF assms(5)] sha assms(1) have
    b1: "build_triple L score (field kvs ''id'') (summary_of kvs) (JStr H) url = Inr [a, b, c]"
    by auto
  from create_objects_returns [OF assms(6)] sha assms(1) have
    b2: "build_triple L score' (field kvs ''id'') (summary_of kvs) (JStr H) url'
           = Inr [a', b', c']"
    by auto
  from build_triple_shape [OF b1] build_triple_shape [OF b2]
  show ?thesis unfolding pat by auto
qed

theorem identifiers_stable_witness:
  "\<exists>a b c f i rl.
      create_objects_for_entry example_lib 80 record_MAL_1 ''u'' = Inr [a, b, c]
    \<and> a = FileSCO f \<and> b = IndicatorSDO i \<and> c = RelationshipSRO rl
    \<and> ind_id i = Indicator_generate_id example_lib
                    (''[file:hashes.'' @ [CHR 0x27] @ ''SHA-256'' @ [CHR 0x27] @ '' = ''
                       @ [CHR 0x27]
                       @ ''e3b0c44298fc1c149afbf4c8996fb92427ae41e4649b934ca495991b7852b855''
                       @ [CHR 0x27] @ '']'')
    \<and> rel_id rl = StixCoreRelationship_generate_id example_lib ''based-on''
                    (ind_id i) (file_id f)"
proof -
  let ?ob = "[(''sha256'',
               JStr ''e3b0c44298fc1c149afbf4c8996fb92427ae41e4649b934ca495991b7852b855'')]"
  let ?d = "[(''malicious-packages-origins'', JArr [JObj ?ob])]"
  let ?kvs = "[(''id'', JStr ''MAL-1''), (''summary'', JStr ''bad pkg''),
               (''database_specific'', JObj ?d)]"
  from record_MAL_1_builds [of 80 "''u''"] obtain a b c where
    h: "create_objects_for_entry example_lib 80 record_MAL_1 ''u'' = Inr [a, b, c]"
    by blast
  have r: "record_MAL_1 = JObj ?kvs" by (simp add: record_MAL_1_def)
  have 1: "map_of ?kvs ''database_specific'' = Some (JObj ?d)" by simp
  have 2: "map_of ?d ''malicious-packages-origins'' = Some (JArr (JObj ?ob # []))" by simp
  have 3: "map_of ?ob ''sha256''
             = Some (JStr ''e3b0c44298fc1c149afbf4c8996fb92427ae41e4649b934ca495991b7852b855'')"
    by simp
  from identifiers_stable [OF r 1 2 3 h h] h show ?thesis
    by blast
qed

text \<open>
  Claim C4 (for every parsed record the builder returns nothing or the three objects,
  and nothing when the first origin yields no hash) does not hold of the code. A first
  origin that is a string has no \<open>sha256\<close>, and a \<open>database_specific\<close> that is \<open>null\<close>
  has no origins; for both the claim promises the empty sequence. The builder tests
  only that the origins are a non-empty list, calls \<open>get\<close> on what it finds, and raises
  \<open>AttributeError\<close>: it returns no sequence at all.
\<close>

theorem builder_raises_instead_of_empty:
  "create_objects_for_entry example_lib 80 record_bad_origin ''u''
     = Inl (AttributeError ''get'')
   \<and> create_objects_for_entry example_lib 80 record_null_database_specific ''u''
     = Inl (AttributeError ''get'')"
  by code_simp

lemma map_of_without_key:
  "map_of (filter (\<lambda>p. fst p \<noteq> k) kvs) k' = (if k' = k then None else map_of kvs k')"
  by (induction kvs) auto

lemma field_without_key:
  "field (filter (\<lambda>p. fst p \<noteq> k) kvs) k' = (if k' = k then JNull else field kvs k')"
  by (simp add: field_def map_of_without_key)

lemma read_sha256_map_of:
  "map_of kvs ''database_specific'' = map_of kvs' ''database_specific'' \<Longrightarrow>
   read_sha256 (JObj kvs) = read_sha256 (JObj kvs')"
  by (simp add: read_sha256_def)

text \<open>
  Claim C9: a summary that is present but empty is treated like an absent one. The
  observable and the indicator of such a record carry the details text when there is a
  non-empty one, and the placeholder \<open>Malicious package\<close> when the details are absent or
  empty too; and the record builds the very objects it builds with the \<open>summary\<close> entry
  removed.
\<close>

theorem empty_summary_falls_back:
  assumes "create_objects_for_entry L score (JObj kvs) url = Inr objs" and "objs \<noteq> []"
      and "map_of kvs ''summary'' = Some (JStr [])"
  shows "\<exists>f i rl. objs = [FileSCO f, IndicatorSDO i, RelationshipSRO rl]
     \<and> (\<forall>d. map_of kvs ''details'' = Some (JStr d) \<and> d \<noteq> [] \<longrightarrow>
           file_x_opencti_description f = JStr d \<and> ind_description i = JStr d)
     \<and> (map_of kvs ''details'' = None \<or> map_of kvs ''details'' = Some (JStr []) \<longrightarrow>
           file_x_opencti_description f = JStr ''Malicious package''
           \<and> ind_description i = JStr ''Malicious package'')
     \<and> create_objects_for_entry L score (JObj (filter (\<lambda>p. fst p \<noteq> ''summary'') kvs)) url
         = Inr objs"
proof -
  from create_objects_returns [OF assms(1,2)] obtain h where
    b: "build_triple L score (field kvs ''id'') (summary_of kvs) h url = Inr objs"
    by auto
  from build_triple_shape [OF b] obtain f i rl where
    o: "objs = [FileSCO f, IndicatorSDO i, RelationshipSRO rl]"
    and d: "file_x_opencti_description f = summary_of kvs" "ind_description i = summary_of kvs"
    by auto
  have s: "summary_of kvs = (if truthy (field kvs ''details'') then field kvs ''details''
                             else JStr ''Malicious package'')"
    using assms(3) by (simp add: summary_of_def field_def)
  let ?kvs = "filter (\<lambda>p. fst p \<noteq> ''summary'') kvs"
  have s': "summary_of ?kvs = summary_of kvs"
    using assms(3) by (simp add: summary_of_def field_without_key) (simp add: field_def)
  have r': "read_sha256 (JObj ?kvs) = read_sha256 (JObj kvs)"
    by (rule read_sha256_map_of) (simp add: map_of_without_key)
  have "create_objects_for_entry L score (JObj ?kvs) url
          = create_objects_for_entry L score (JObj kvs) url"
    unfolding create_objects_dict s' r' by (simp add: field_without_key cong: if_cong)
  with assms(1) o d s show ?thesis
    by (auto simp: field_def)
qed

theorem empty_summary_falls_back_witness:
  "\<exists>f i rl. create_objects_for_entry example_lib 80 record_empty_summary ''u''
               = Inr [FileSCO f, IndicatorSDO i, RelationshipSRO rl]
     \<and> file_x_opencti_description f = JStr ''steals tokens''
     \<and> ind_description i = JStr ''steals tokens''"
proof -
  let ?kvs = "[(''id'', JStr ''MAL-3''), (''summary'', JStr []),
               (''details'', JStr ''steals tokens''),
               (''database_specific'',
                  JObj [(''malicious-packages-origins'',
                           JArr [JObj [(''sha256'', JStr ''e3b0c44298fc1c149afbf4c8996fb92427ae41e4649b934ca495991b7852b855'')]])])]"
  from record_empty_summary_builds [of 80 "''u''"] obtain f i rl where
    h: "create_objects_for_entry example_lib 80 (JObj ?kvs) ''u''
          = Inr [FileSCO f, IndicatorSDO i, RelationshipSRO rl]"
    unfolding record_empty_summary_def by blast
  have s: "map_of ?kvs ''summary'' = Some (JStr [])" by simp
  have d: "map_of ?kvs ''details'' = Some (JStr ''steals tokens'') \<and> ''steals tokens'' \<noteq> []"
    by simp
  from empty_summary_falls_back [OF h _ s] d h show ?thesis
    unfolding record_empty_summary_def by auto
qed


section \<open>The change set\<close>

lemma endswith_iff: "endswith s suf \<longleftrightarrow> (\<exists>stem. s = stem @ suf)"
proof
  assume "endswith s suf"
  then have "s = take (length s - length suf) s @ suf"
    by (metis append_take_drop_id endswith_def)
  then show "\<exists>stem. s = stem @ suf" ..
next
  assume "\<exists>stem. s = stem @ suf"
  then show "endswith s suf" by (auto simp: endswith_def)
qed

lemma path_join_proper:
  "a \<noteq> [] \<Longrightarrow> last a \<noteq> CHR ''/'' \<Longrightarrow> b = [] \<or> hd b \<noteq> CHR ''/'' \<Longrightarrow>
   path_join a b = a @ ''/'' @ b"
  by (auto simp: path_join_def)

lemma proper_name_hd: "proper_name n \<Longrightarrow> n = [] \<or> hd n \<noteq> CHR ''/''"
  by (cases n) (auto simp: proper_name_def)

lemma proper_name_extends:
  "proper_name n \<Longrightarrow> dir @ ''/'' @ n \<noteq> [] \<and> last (dir @ ''/'' @ n) \<noteq> CHR ''/''"
  by (cases n rule: rev_cases) (auto simp: proper_name_def)

lemma walk_files:
  "dir \<noteq> [] \<Longrightarrow> last dir \<noteq> CHR ''/'' \<Longrightarrow> proper_tree es \<Longrightarrow>
   (\<Union>(root, dirs, files) \<in> set (os_walk dir es). Pair root ` set files)
      = set (files_beneath dir es)"
  "dir \<noteq> [] \<Longrightarrow> last dir \<noteq> CHR ''/'' \<Longrightarrow> proper_tree es \<Longrightarrow>
   (\<Union>(root, dirs, files) \<in> set (walk_into dir es). Pair root ` set files)
      \<union> Pair dir ` set (filenames es) = set (files_beneath dir es)"
proof (induction dir es and dir es rule: os_walk_walk_into.induct)
  case (1 dir entries)
  then show ?case by (simp add: Un_commute)
next
  case (2 dir)
  then show ?case by simp
next
  case (3 dir n es)
  then show ?case by auto
next
  case (4 dir n sub es)
  from "4.prems" have n: "proper_name n" and sub: "proper_tree sub" and es: "proper_tree es"
    by simp_all
  have j: "path_join dir n = dir @ ''/'' @ n"
    using "4.prems"(1,2) proper_name_hd [OF n] by (rule path_join_proper)
  from proper_name_extends [OF n, of dir]
  have d: "dir @ ''/'' @ n \<noteq> []" "last (dir @ ''/'' @ n) \<noteq> CHR ''/''"
    by simp_all
  have 1: "(\<Union>(root, dirs, files) \<in> set (os_walk (dir @ ''/'' @ n) sub). Pair root ` set files)
             = set (files_beneath (dir @ ''/'' @ n) sub)"
    using "4.IH"(1) [unfolded j, OF d sub] .
  have 2: "(\<Union>(root, dirs, files) \<in> set (walk_into dir es). Pair root ` set files)
              \<union> Pair dir ` set (filenames es) = set (files_beneath dir es)"
    using "4.IH"(2) [OF "4.prems"(1,2) es] .
  have "(\<Union>(root, dirs, files) \<in> set (walk_into dir (DirNode n sub # es)). Pair root ` set files)
          \<union> Pair dir ` set (filenames (DirNode n sub # es))
        = (\<Union>(root, dirs, files) \<in> set (os_walk (dir @ ''/'' @ n) sub). Pair root ` set files)
          \<union> ((\<Union>(root, dirs, files) \<in> set (walk_into dir es). Pair root ` set files)
              \<union> Pair dir ` set (filenames es))"
    by (simp add: j Un_assoc del: os_walk.simps)
  also have "\<dots> = set (files_beneath (dir @ ''/'' @ n) sub) \<union> set (files_beneath dir es)"
    by (simp only: 1 2)
  finally show ?case by simp
qed

lemma files_beneath_proper:
  "dir \<noteq> [] \<Longrightarrow> last dir \<noteq> CHR ''/'' \<Longrightarrow> proper_tree es \<Longrightarrow>
   (d, f) \<in> set (files_beneath dir es) \<Longrightarrow>
   d \<noteq> [] \<and> last d \<noteq> CHR ''/'' \<and> proper_name f"
proof (induction dir es rule: files_beneath.induct)
  case (1 dir)
  then show ?case by simp
next
  case (2 dir n es)
  then show ?case by auto
next
  case (3 dir n sub es)
  from "3.prems" have n: "proper_name n" and sub: "proper_tree sub" and es: "proper_tree es"
    by simp_all
  from proper_name_extends [OF n, of dir]
  have d: "dir @ ''/'' @ n \<noteq> []" "last (dir @ ''/'' @ n) \<noteq> CHR ''/''"
    by simp_all
  from "3.prems"(4) consider "(d, f) \<in> set (files_beneath (dir @ ''/'' @ n) sub)"
    | "(d, f) \<in> set (files_beneath dir es)"
    by auto
  then show ?case
  proof cases
    case 1
    from "3.IH"(1) [OF d sub 1] show ?thesis .
  next
    case 2
    from "3.IH"(2) [OF "3.prems"(1,2) es 2] show ?thesis .
  qed
qed

lemma set_json_paths:
  "set [path_join root f. (root, dirs, files) \<leftarrow> w, f \<leftarrow> files, endswith f ''.json'']
     = {path_join dir f | dir f.
          (dir, f) \<in> (\<Union>(root, dirs, files) \<in> set w. Pair root ` set files)
          \<and> endswith f ''.json''}"
proof (intro set_eqI iffI)
  fix p
  assume "p \<in> set [path_join root f. (root, dirs, files) \<leftarrow> w, f \<leftarrow> files,
                       endswith f ''.json'']"
  then obtain root dirs files f where
    "(root, dirs, files) \<in> set w" "f \<in> set files" "endswith f ''.json''" "p = path_join root f"
    by auto
  then have "(root, f) \<in> (\<Union>(root, dirs, files) \<in> set w. Pair root ` set files)"
    by force
  with \<open>endswith f ''.json''\<close> \<open>p = path_join root f\<close>
  show "p \<in> {path_join dir f | dir f.
          (dir, f) \<in> (\<Union>(root, dirs, files) \<in> set w. Pair root ` set files)
          \<and> endswith f ''.json''}"
    by blast
next
  fix p
  assume "p \<in> {path_join dir f | dir f.
          (dir, f) \<in> (\<Union>(root, dirs, files) \<in> set w. Pair root ` set files)
          \<and> endswith f ''.json''}"
  then show "p \<in> set [path_join root f. (root, dirs, files) \<leftarrow> w, f \<leftarrow> files,
                        endswith f ''.json'']"
    by fastforce
qed

lemma malicious_dir_proper:
  assumes "local_repo_path E \<noteq> []" and "last (local_repo_path E) \<noteq> CHR ''/''"
  shows "malicious_dir E = local_repo_path E @ ''/osv/malicious''"
proof -
  have 1: "path_join (local_repo_path E) ''osv'' = local_repo_path E @ ''/osv''"
    using assms by (simp add: path_join_proper)
  have "path_join (local_repo_path E @ ''/osv'') ''malicious''
          = (local_repo_path E @ ''/osv'') @ ''/'' @ ''malicious''"
    by (rule path_join_proper) simp_all
  with 1 show ?thesis by (simp add: malicious_dir_def)
qed

text \<open>
  Claim C5: with no previous revision the resolver returns the path of every file
  beneath \<open>osv/malicious\<close> in the checkout, at any depth, whose name ends in
  \<open>.json\<close>, and nothing else. The checkout is at a path that does not end in a slash,
  and the names in the tree are proper. The result depends on the tree alone: neither
  the new revision nor anything git reports about changes enters it. Where the checkout
  has no directory \<open>osv/malicious\<close> the result is empty.
\<close>

theorem first_run_returns_every_record_file:
  assumes "local_repo_path E \<noteq> []" and "last (local_repo_path E) \<noteq> CHR ''/''"
  shows "(tree_at E (local_repo_path E @ ''/osv/malicious'') = None \<longrightarrow>
            get_changed_files E None new_commit = Inr [])
       \<and> (\<forall>entries. tree_at E (local_repo_path E @ ''/osv/malicious'') = Some entries
             \<and> proper_tree entries \<longrightarrow>
            (\<exists>fs. get_changed_files E None new_commit = Inr fs
               \<and> set fs = {dir @ ''/'' @ stem @ ''.json'' | dir stem.
                             (dir, stem @ ''.json'')
                               \<in> set (files_beneath (local_repo_path E @ ''/osv/malicious'')
                                        entries)}
               \<and> get_changed_files (E\<lparr>git_diff := g\<rparr>) None other_commit = Inr fs))"
proof (intro conjI allI impI)
  assume "tree_at E (local_repo_path E @ ''/osv/malicious'') = None"
  then show "get_changed_files E None new_commit = Inr []"
    by (simp add: get_changed_files_def walk_def malicious_dir_proper [OF assms])
next
  fix entries
  let ?D = "local_repo_path E @ ''/osv/malicious''"
  assume a: "tree_at E ?D = Some entries \<and> proper_tree entries"
  let ?fs = "[path_join root f. (root, dirs, files) \<leftarrow> os_walk ?D entries,
                f \<leftarrow> files, endswith f ''.json'']"
  have D: "?D \<noteq> []" "last ?D \<noteq> CHR ''/''" by simp_all
  have 1: "get_changed_files E None new_commit = Inr ?fs"
    using a by (simp add: get_changed_files_def walk_def malicious_dir_proper [OF assms]
                     del: os_walk.simps)
  have 2: "get_changed_files (E\<lparr>git_diff := g\<rparr>) None other_commit = Inr ?fs"
    using a assms
    by (simp add: get_changed_files_def walk_def malicious_dir_proper del: os_walk.simps)
  have 3: "(\<Union>(root, dirs, files) \<in> set (os_walk ?D entries). Pair root ` set files)
             = set (files_beneath ?D entries)"
    using a by (intro walk_files(1) D) simp
  have 4: "set ?fs = {path_join dir f | dir f.
                        (dir, f) \<in> set (files_beneath ?D entries) \<and> endswith f ''.json''}"
    by (simp only: set_json_paths 3)
  have 5: "path_join dir f = dir @ ''/'' @ f"
    if "(dir, f) \<in> set (files_beneath ?D entries)" for dir f
  proof -
    from a have "proper_tree entries" by simp
    from files_beneath_proper [OF D this that]
    show ?thesis by (intro path_join_proper proper_name_hd) simp_all
  qed
  have "set ?fs = {dir @ ''/'' @ stem @ ''.json'' | dir stem.
                     (dir, stem @ ''.json'') \<in> set (files_beneath ?D entries)}"
    unfolding 4
  proof (intro set_eqI iffI)
    fix x
    assume "x \<in> {path_join dir f | dir f.
                   (dir, f) \<in> set (files_beneath ?D entries) \<and> endswith f ''.json''}"
    then obtain dir f where m: "(dir, f) \<in> set (files_beneath ?D entries)"
      and e: "endswith f ''.json''" and x: "x = path_join dir f"
      by blast
    from e obtain stem where f: "f = stem @ ''.json''"
      by (auto simp: endswith_iff)
    from 5 [OF m] x f have "x = dir @ ''/'' @ stem @ ''.json''" by simp
    with m f show "x \<in> {dir @ ''/'' @ stem @ ''.json'' | dir stem.
                          (dir, stem @ ''.json'') \<in> set (files_beneath ?D entries)}"
      by blast
  next
    fix x
    assume "x \<in> {dir @ ''/'' @ stem @ ''.json'' | dir stem.
                   (dir, stem @ ''.json'') \<in> set (files_beneath ?D entries)}"
    then obtain dir stem where m: "(dir, stem @ ''.json'') \<in> set (files_beneath ?D entries)"
      and x: "x = dir @ ''/'' @ stem @ ''.json''"
      by blast
    have e: "endswith (stem @ ''.json'') ''.json''"
      unfolding endswith_iff by blast
    from 5 [OF m] x have "x = path_join dir (stem @ ''.json'')" by simp
    with m e show "x \<in> {path_join dir f | dir f.
                          (dir, f) \<in> set (files_beneath ?D entries) \<and> endswith f ''.json''}"
      by blast
  qed
  with 1 2 show "\<exists>fs. get_changed_files E None new_commit = Inr fs
               \<and> set fs = {dir @ ''/'' @ stem @ ''.json'' | dir stem.
                             (dir, stem @ ''.json'') \<in> set (files_beneath ?D entries)}
               \<and> get_changed_files (E\<lparr>git_diff := g\<rparr>) None other_commit = Inr fs"
    by blast
qed

theorem first_run_returns_every_record_file_witness:
  "\<exists>fs. get_changed_files example_env None ''c0ffee'' = Inr fs
      \<and> set fs = {''/repo/osv/malicious/npm/MAL-1.json''}"
proof -
  let ?entries = "[DirNode ''npm'' [FileNode ''MAL-1.json'', FileNode ''notes.txt'']]"
  have r: "local_repo_path example_env \<noteq> []" "last (local_repo_path example_env) \<noteq> CHR ''/''"
    by (simp_all add: example_env_def)
  have t: "tree_at example_env (local_repo_path example_env @ ''/osv/malicious'') = Some ?entries
           \<and> proper_tree ?entries"
    by (simp add: example_env_def proper_name_def)
  from first_run_returns_every_record_file [OF r, of "''c0ffee''"] t
  obtain fs where "get_changed_files example_env None ''c0ffee'' = Inr fs" by blast
  moreover have "get_changed_files example_env None ''c0ffee''
                   = Inr [''/repo/osv/malicious/npm/MAL-1.json'']"
    by code_simp
  ultimately show ?thesis by auto
qed

text \<open>
  Claim C6 as stated (only added or modified records are returned, deleted ones are not
  surfaced) fails: the path of a deleted record is listed by \<open>git diff --name-only\<close>
  and returned by the resolver, although there is no such file in the checkout.
\<close>

theorem deleted_record_is_returned:
  "git_diff quiet_env (''badc0de'' @ ''..'' @ ''c0ffee'') ''osv/malicious''
      = Inr [Deleted ''osv/malicious/npm/MAL-9.json'']
   \<and> get_changed_files quiet_env (Some ''badc0de'') ''c0ffee''
      = Inr [''/repo/osv/malicious/npm/MAL-9.json'']
   \<and> get_changed_files quiet_env None ''c0ffee''
      = Inr [''/repo/osv/malicious/npm/MAL-1.json'']"
  by code_simp

lemma quoted_line_not_json:
  "\<not> endswith (CHR 0x22 # s @ [CHR 0x22]) ''.json''"
proof
  assume "endswith (CHR 0x22 # s @ [CHR 0x22]) ''.json''"
  then obtain stem where "CHR 0x22 # s @ [CHR 0x22] = stem @ ''.json''"
    unfolding endswith_iff by blast
  then have "last (CHR 0x22 # s @ [CHR 0x22]) = last (stem @ ''.json'')"
    by simp
  then show False by simp
qed


lemma entry_prints:
  "(\<exists>entry \<in> set entries. name_only_path entry = p) \<longleftrightarrow>
     (Added p \<in> set entries \<or> Modified p \<in> set entries \<or> Deleted p \<in> set entries
      \<or> TypeChanged p \<in> set entries \<or> (\<exists>old. Renamed old p \<in> set entries)
      \<or> (\<exists>src. Copied src p \<in> set entries))"
  (is "?L \<longleftrightarrow> ?R")
proof
  assume ?L
  then obtain entry where e: "entry \<in> set entries" "name_only_path entry = p" by blast
  show ?R
  proof (cases entry)
    case (Added x) with e show ?thesis by simp
  next
    case (Modified x) with e show ?thesis by simp
  next
    case (Deleted x) with e show ?thesis by simp
  next
    case (TypeChanged x) with e show ?thesis by simp
  next
    case (Renamed x y) with e have "Renamed x p \<in> set entries" by simp
    then show ?thesis by blast
  next
    case (Copied x y) with e have "Copied x p \<in> set entries" by simp
    then show ?thesis by blast
  qed
next
  assume ?R
  then consider "Added p \<in> set entries" | "Modified p \<in> set entries"
    | "Deleted p \<in> set entries" | "TypeChanged p \<in> set entries"
    | old where "Renamed old p \<in> set entries" | src where "Copied src p \<in> set entries"
    by blast
  then show ?L
  proof cases
    case 1 then show ?thesis by (intro bexI [of _ "Added p"]) simp_all
  next
    case 2 then show ?thesis by (intro bexI [of _ "Modified p"]) simp_all
  next
    case 3 then show ?thesis by (intro bexI [of _ "Deleted p"]) simp_all
  next
    case 4 then show ?thesis by (intro bexI [of _ "TypeChanged p"]) simp_all
  next
    case 5 then show ?thesis by (intro bexI [of _ "Renamed old p"]) simp_all
  next
    case 6 then show ?thesis by (intro bexI [of _ "Copied src p"]) simp_all
  qed
qed

lemma git_quotes_iff:
  "git_quotes p \<longleftrightarrow>
     \<not> (\<forall>c \<in> set p. 32 \<le> (of_char c :: nat) \<and> (of_char c :: nat) < 127
                      \<and> c \<noteq> CHR 0x22 \<and> c \<noteq> CHR 0x5C)"
  by (auto simp: git_quotes_def list_ex_iff not_le not_less)

lemma json_suffix_plain:
  "(\<forall>c \<in> set (stem @ ''.json''). 32 \<le> (of_char c :: nat)
        \<and> (of_char c :: nat) < 127 \<and> c \<noteq> CHR 0x22 \<and> c \<noteq> CHR 0x5C)
   \<longleftrightarrow> (\<forall>c \<in> set stem. 32 \<le> (of_char c :: nat)
        \<and> (of_char c :: nat) < 127 \<and> c \<noteq> CHR 0x22 \<and> c \<noteq> CHR 0x5C)"
  by auto

lemma path_join_json:
  assumes "repo \<noteq> []" and "last repo \<noteq> CHR ''/''"
  shows "path_join repo (stem @ ''.json'')
           = (if stem \<noteq> [] \<and> hd stem = CHR ''/'' then stem @ ''.json''
              else repo @ ''/'' @ stem @ ''.json'')"
  using assms by (cases stem) (auto simp: path_join_def)

lemma changed_lines:
  "x \<in> set [path_join repo p. p \<leftarrow> map (name_only_line E) entries, endswith p ''.json'']
     \<longleftrightarrow> (\<exists>entry \<in> set entries. \<not> git_quotes (name_only_path entry)
            \<and> endswith (name_only_path entry) ''.json''
            \<and> x = path_join repo (name_only_path entry))"
proof -
  have line: "endswith (name_only_line E entry) ''.json'' \<longleftrightarrow>
                \<not> git_quotes (name_only_path entry) \<and> endswith (name_only_path entry) ''.json''"
    for entry
    by (simp add: name_only_line_def Let_def quoted_line_not_json)
  have line': "\<not> git_quotes (name_only_path entry) \<Longrightarrow>
                 name_only_line E entry = name_only_path entry" for entry
    by (simp add: name_only_line_def Let_def)
  show ?thesis
    by (auto simp: line line')
qed

text \<open>
  Claim C6, amended. With a previous revision \<open>a\<close> and the current revision \<open>b\<close> the
  resolver returns the paths that \<open>git diff --name-only a..b -- osv/malicious\<close> prints
  and that end in \<open>.json\<close>, each joined to the checkout: the path of every record that
  was added, modified, changed in type or deleted, and the new path of every record that
  was renamed or copied, as long as git prints the path unquoted, that is as long as it
  holds only printable ASCII characters other than the double quote and the backslash.
  Nothing else is returned. When git fails on the range, the resolver fails with it.
\<close>

theorem later_run_returns_listed_paths:
  assumes "local_repo_path E \<noteq> []" and "last (local_repo_path E) \<noteq> CHR ''/''"
  shows "(\<forall>entries. git_diff E (a @ ''..'' @ b) ''osv/malicious'' = Inr entries \<longrightarrow>
      (\<exists>fs. get_changed_files E (Some a) b = Inr fs
          \<and> (\<forall>x. x \<in> set fs \<longleftrightarrow>
                (\<exists>stem.
                    (Added (stem @ ''.json'') \<in> set entries
                     \<or> Modified (stem @ ''.json'') \<in> set entries
                     \<or> Deleted (stem @ ''.json'') \<in> set entries
                     \<or> TypeChanged (stem @ ''.json'') \<in> set entries
                     \<or> (\<exists>old. Renamed old (stem @ ''.json'') \<in> set entries)
                     \<or> (\<exists>src. Copied src (stem @ ''.json'') \<in> set entries))
                  \<and> (\<forall>c \<in> set stem. 32 \<le> (of_char c :: nat) \<and> (of_char c :: nat) < 127
                                        \<and> c \<noteq> CHR 0x22 \<and> c \<noteq> CHR 0x5C)
                  \<and> x = (if stem \<noteq> [] \<and> hd stem = CHR ''/'' then stem @ ''.json''
                         else local_repo_path E @ ''/'' @ stem @ ''.json'')))))
   \<and> (\<forall>e. git_diff E (a @ ''..'' @ b) ''osv/malicious'' = Inl e \<longrightarrow>
          get_changed_files E (Some a) b = Inl e)"
proof (intro conjI allI impI)
  fix e assume "git_diff E (a @ ''..'' @ b) ''osv/malicious'' = Inl e"
  then show "get_changed_files E (Some a) b = Inl e"
    by (simp add: get_changed_files_def git_diff_name_only_def then_do_def)
next
  fix entries assume g: "git_diff E (a @ ''..'' @ b) ''osv/malicious'' = Inr entries"
  let ?repo = "local_repo_path E"
  let ?fs = "[path_join ?repo p. p \<leftarrow> map (name_only_line E) entries, endswith p ''.json'']"
  let ?printed = "\<lambda>p. Added p \<in> set entries \<or> Modified p \<in> set entries
                     \<or> Deleted p \<in> set entries \<or> TypeChanged p \<in> set entries
                     \<or> (\<exists>old. Renamed old p \<in> set entries)
                     \<or> (\<exists>src. Copied src p \<in> set entries)"
  let ?plain = "\<lambda>s. \<forall>c \<in> set s. 32 \<le> (of_char c :: nat) \<and> (of_char c :: nat) < 127
                                  \<and> c \<noteq> CHR 0x22 \<and> c \<noteq> CHR 0x5C"
  let ?at = "\<lambda>stem. if stem \<noteq> [] \<and> hd stem = CHR ''/'' then stem @ ''.json''
                      else ?repo @ ''/'' @ stem @ ''.json''"
  have 1: "get_changed_files E (Some a) b = Inr ?fs"
    using g by (simp add: get_changed_files_def git_diff_name_only_def then_do_def)
  have 2: "x \<in> set ?fs \<longleftrightarrow> (\<exists>stem. ?printed (stem @ ''.json'') \<and> ?plain stem \<and> x = ?at stem)"
    for x
  proof
    assume "x \<in> set ?fs"
    then obtain entry where en: "entry \<in> set entries"
      and q: "\<not> git_quotes (name_only_path entry)"
      and j: "endswith (name_only_path entry) ''.json''"
      and x: "x = path_join ?repo (name_only_path entry)"
      unfolding changed_lines by blast
    from j obtain stem where s: "name_only_path entry = stem @ ''.json''"
      unfolding endswith_iff by blast
    from en s have "\<exists>entry \<in> set entries. name_only_path entry = stem @ ''.json''"
      by blast
    then have p: "?printed (stem @ ''.json'')"
      unfolding entry_prints .
    from q s have "?plain (stem @ ''.json'')"
      unfolding git_quotes_iff by simp
    then have pl: "?plain stem"
      unfolding json_suffix_plain .
    from x s have "x = ?at stem"
      by (simp only: path_join_json [OF assms])
    with p pl show "\<exists>stem. ?printed (stem @ ''.json'') \<and> ?plain stem \<and> x = ?at stem"
      by blast
  next
    assume "\<exists>stem. ?printed (stem @ ''.json'') \<and> ?plain stem \<and> x = ?at stem"
    then obtain stem where p: "?printed (stem @ ''.json'')" and pl: "?plain stem"
      and x: "x = ?at stem"
      by blast
    from p have "\<exists>entry \<in> set entries. name_only_path entry = stem @ ''.json''"
      unfolding entry_prints .
    then obtain entry where en: "entry \<in> set entries"
      and s: "name_only_path entry = stem @ ''.json''"
      by blast
    from pl have "?plain (stem @ ''.json'')"
      unfolding json_suffix_plain .
    with s have q: "\<not> git_quotes (name_only_path entry)"
      unfolding git_quotes_iff by simp
    have j: "endswith (name_only_path entry) ''.json''"
      unfolding endswith_iff s by blast
    from x s have "x = path_join ?repo (name_only_path entry)"
      by (simp only: path_join_json [OF assms])
    with en q j show "x \<in> set ?fs"
      unfolding changed_lines by blast
  qed
  from 1 2 show "\<exists>fs. get_changed_files E (Some a) b = Inr fs
          \<and> (\<forall>x. x \<in> set fs \<longleftrightarrow>
                (\<exists>stem. ?printed (stem @ ''.json'') \<and> ?plain stem \<and> x = ?at stem))"
    by blast
qed

theorem later_run_returns_listed_paths_witness:
  "\<exists>fs. get_changed_files example_env (Some ''badc0de'') ''c0ffee'' = Inr fs
      \<and> ''/repo/osv/malicious/npm/MAL-1.json'' \<in> set fs
      \<and> ''/repo/osv/malicious/npm/MAL-9.json'' \<in> set fs
      \<and> ''/repo/osv/malicious/npm/notes.txt'' \<notin> set fs"
proof -
  let ?entries = "[Modified ''osv/malicious/npm/MAL-1.json'',
                   Deleted ''osv/malicious/npm/MAL-9.json'',
                   Added ''osv/malicious/npm/notes.txt'']"
  have r: "local_repo_path example_env \<noteq> []" "last (local_repo_path example_env) \<noteq> CHR ''/''"
    by (simp_all add: example_env_def)
  have g: "git_diff example_env (''badc0de'' @ ''..'' @ ''c0ffee'') ''osv/malicious''
             = Inr ?entries"
    by (simp add: example_env_def)
  from later_run_returns_listed_paths [OF r, of "''badc0de''" "''c0ffee''"] g
  obtain fs where
    fs: "get_changed_files example_env (Some ''badc0de'') ''c0ffee'' = Inr fs"
    by blast
  have "get_changed_files example_env (Some ''badc0de'') ''c0ffee''
          = Inr [''/repo/osv/malicious/npm/MAL-1.json'', ''/repo/osv/malicious/npm/MAL-9.json'']"
    by code_simp
  with fs show ?thesis by auto
qed

section \<open>The checkpoint\<close>

lemma dispatch_completed_state:
  "fst (dispatch_and_checkpoint E c h objs) = Completed \<Longrightarrow>
   state (snd (dispatch_and_checkpoint E c h objs))
     = Some [(''last_commit'', h), (''last_run'', utc_now_isoformat E)]"
  by (auto simp: dispatch_and_checkpoint_def except_or_checkpoint_def Let_def
           split: prod.splits option.splits if_splits)

lemma dispatch_ignores_state:
  "fst (dispatch_and_checkpoint E (c\<lparr>state := st\<rparr>) h objs) = fst (dispatch_and_checkpoint E c h objs)
   \<and> sent (snd (dispatch_and_checkpoint E (c\<lparr>state := st\<rparr>) h objs))
       = sent (snd (dispatch_and_checkpoint E c h objs))"
  by (auto simp: dispatch_and_checkpoint_def except_or_checkpoint_def Let_def
           split: prod.splits option.splits if_splits)

text \<open>
  Claim C8 as stated (the recognised keys are \<open>last_revision\<close> and \<open>last_run\<close>) fails:
  a completed run writes the keys \<open>last_commit\<close> and \<open>last_run\<close>, the map written has
  no key \<open>last_revision\<close>, and a stored map that carries the revision under
  \<open>last_revision\<close> is resolved like no checkpoint at all.
\<close>

theorem checkpoint_key_counterexample:
  "process_once quiet_env later_run
     = (Completed, \<lparr>state = Some [(''last_commit'', ''c0ffee''),
                                  (''last_run'', ''2026-01-01T00:00:00+00:00'')],
                    sent = []\<rparr>)
   \<and> map_of [(''last_commit'', ''c0ffee''), (''last_run'', ''2026-01-01T00:00:00+00:00'')]
        ''last_revision'' = None
   \<and> get_changed_files quiet_env
        (map_of [(''last_revision'', ''badc0de''), (''last_run'', ''2025-12-31T00:00:00+00:00'')]
           ''last_commit'') ''c0ffee''
      = get_changed_files quiet_env None ''c0ffee''"
  by code_simp

text \<open>
  Claim C8, amended. The checkpoint map uses the keys \<open>last_commit\<close> and \<open>last_run\<close>.
  A run that completes writes a map with exactly these two keys, in which
  \<open>last_commit\<close> is the HEAD revision of the run and \<open>last_run\<close> is the time stamp
  taken at the end of the run. Of the stored map a run reads \<open>last_commit\<close> only: two
  stored maps that agree on that key lead to the same outcome and the same bundles sent.
\<close>

theorem checkpoint_keys:
  "(fst (process_once E c) = Completed \<longrightarrow>
      (\<exists>head. get_current_head E = Inr head
         \<and> state (snd (process_once E c))
             = Some [(''last_commit'', head), (''last_run'', utc_now_isoformat E)]))
   \<and> (\<forall>d d'. state c = Some d \<and> map_of d' ''last_commit'' = map_of d ''last_commit'' \<longrightarrow>
         fst (process_once E (c\<lparr>state := Some d'\<rparr>)) = fst (process_once E c)
         \<and> sent (snd (process_once E (c\<lparr>state := Some d'\<rparr>))) = sent (snd (process_once E c)))"
proof (rule conjI)
  show "fst (process_once E c) = Completed \<longrightarrow>
      (\<exists>head. get_current_head E = Inr head
         \<and> state (snd (process_once E c))
             = Some [(''last_commit'', head), (''last_run'', utc_now_isoformat E)])"
    by (auto simp: process_once_def Let_def dispatch_completed_state
             split: option.splits sum.splits)
next
  show "\<forall>d d'. state c = Some d \<and> map_of d' ''last_commit'' = map_of d ''last_commit'' \<longrightarrow>
         fst (process_once E (c\<lparr>state := Some d'\<rparr>)) = fst (process_once E c)
         \<and> sent (snd (process_once E (c\<lparr>state := Some d'\<rparr>))) = sent (snd (process_once E c))"
  proof (intro allI impI)
    fix d d' assume a: "state c = Some d \<and> map_of d' ''last_commit'' = map_of d ''last_commit''"
    then have m: "map_of (if d' = [] then [] else d') ''last_commit''
                   = map_of (if d = [] then [] else d) ''last_commit''"
      by simp
    show "fst (process_once E (c\<lparr>state := Some d'\<rparr>)) = fst (process_once E c)
           \<and> sent (snd (process_once E (c\<lparr>state := Some d'\<rparr>))) = sent (snd (process_once E c))"
      using a m dispatch_ignores_state [where E = E and c = c and st = "Some d'"]
      by (auto simp: process_once_def Let_def split: option.splits sum.splits)
  qed
qed

theorem checkpoint_keys_witness:
  "fst (process_once quiet_env later_run) = Completed
   \<and> state (snd (process_once quiet_env later_run))
       = Some [(''last_commit'', ''c0ffee''), (''last_run'', ''2026-01-01T00:00:00+00:00'')]"
proof -
  have h: "fst (process_once quiet_env later_run) = Completed"
    by code_simp
  have g: "get_current_head quiet_env = Inr ''c0ffee''"
      and n: "utc_now_isoformat quiet_env = ''2026-01-01T00:00:00+00:00''"
    by (simp_all add: quiet_env_def example_env_def)
  from checkpoint_keys [of quiet_env later_run] h
  obtain head where "get_current_head quiet_env = Inr head"
    and "state (snd (process_once quiet_env later_run))
           = Some [(''last_commit'', head), (''last_run'', utc_now_isoformat quiet_env)]"
    by blast
  with g n h show ?thesis by simp
qed


end
